theory Spec2Isabelle
  imports Complex_Main "HOL-Library.AList"
begin

section \<open>Domain objects\<close>

text \<open>
  The program is the refactored Conway's Game of Life whose Python classes are given in
  the refactoring plan (\<^verbatim>\<open>cohesion-guide/README.md\<close>, Tasks 2.2, 2.3, 3.1 and 3.3) and
  quoted again in \<^verbatim>\<open>PHASE3_SUMMARY.md\<close> and in the code analysis
  (\<^verbatim>\<open>cohesion-examples/example-05.ts\<close>). Frozen dataclasses become datatypes with
  selectors, Python's unbounded \<^verbatim>\<open>int\<close> becomes \<^typ>\<open>int\<close>.
\<close>

subsection \<open>Cell\<close>

datatype Cell = Cell (alive: bool)

definition alive_cell :: Cell where
  "alive_cell = Cell True"

definition dead_cell :: Cell where
  "dead_cell = Cell False"

definition is_alive :: "Cell \<Rightarrow> bool" where
  "is_alive c = alive c"

definition is_dead :: "Cell \<Rightarrow> bool" where
  "is_dead c = (\<not> alive c)"

subsection \<open>Position\<close>

datatype Position = Position (row: int) (col: int)

text \<open>
  \<^verbatim>\<open>[Position(self.row + dr, self.col + dc)
     for dr in [-1, 0, 1] for dc in [-1, 0, 1] if not (dr == 0 and dc == 0)]\<close>
\<close>

definition neighbors :: "Position \<Rightarrow> Position list" where
  "neighbors p =
     [Position (row p + dr) (col p + dc).
        dr \<leftarrow> [-1, 0, 1], dc \<leftarrow> [-1, 0, 1], \<not> (dr = 0 \<and> dc = 0)]"

subsection \<open>GridSize\<close>

datatype GridSize = GridSize (width: int) (height: int)

definition contains :: "GridSize \<Rightarrow> Position \<Rightarrow> bool" where
  "contains s p = (0 \<le> row p \<and> row p < height s \<and> 0 \<le> col p \<and> col p < width s)"

text \<open>
  \<^verbatim>\<open>[Position(row, col) for row in range(self.height) for col in range(self.width)]\<close>;
  \<^verbatim>\<open>range(n)\<close> is the integers \<open>0, \<dots>, n - 1\<close>, empty when \<open>n \<le> 0\<close>.
\<close>

definition range_py :: "int \<Rightarrow> int list" where
  "range_py n = [0..n - 1]"

definition all_positions :: "GridSize \<Rightarrow> Position list" where
  "all_positions s =
     [Position r c. r \<leftarrow> range_py (height s), c \<leftarrow> range_py (width s)]"

subsection \<open>Generation\<close>

datatype Generation = Generation (number: int)

definition next_generation :: "Generation \<Rightarrow> Generation" where
  "next_generation g = Generation (number g + 1)"

section \<open>GameRules\<close>

text \<open>
  \<^verbatim>\<open>PHASE3_SUMMARY.md\<close> gives \<^verbatim>\<open>calculate_next_state\<close> as a dispatch on
  \<^verbatim>\<open>current_cell.is_alive()\<close> to \<^verbatim>\<open>_apply_survival_rules\<close> and
  \<^verbatim>\<open>_apply_birth_rules\<close>; the bodies of the two branches are the ones written inline
  in Task 3.1 of the refactoring plan:
  \<^verbatim>\<open>if living_neighbors in [2, 3]: return Cell.alive_cell()
     return Cell.dead_cell()\<close> and
  \<^verbatim>\<open>if living_neighbors == 3: return Cell.alive_cell()
     return Cell.dead_cell()\<close>.
\<close>

definition apply_survival_rules :: "int \<Rightarrow> Cell" where
  "apply_survival_rules living_neighbors =
     (if living_neighbors \<in> set [2, 3] then alive_cell else dead_cell)"

definition apply_birth_rules :: "int \<Rightarrow> Cell" where
  "apply_birth_rules living_neighbors =
     (if living_neighbors = 3 then alive_cell else dead_cell)"

definition calculate_next_state :: "Cell \<Rightarrow> int \<Rightarrow> Cell" where
  "calculate_next_state current_cell living_neighbors =
     (if is_alive current_cell then apply_survival_rules living_neighbors
      else apply_birth_rules living_neighbors)"

section \<open>Grid\<close>

text \<open>
  \<^verbatim>\<open>Grid\<close> (Task 2.3) owns \<^verbatim>\<open>_size\<close> and the dictionary
  \<^verbatim>\<open>_cells: Dict[Position, Cell]\<close>. The dictionary is an association list in
  insertion order: \<^verbatim>\<open>d[k] = v\<close> is \<^const>\<open>AList.update\<close> (overwrite in place, or
  append a new key), \<^verbatim>\<open>d.get(k, default)\<close> and \<^verbatim>\<open>k in d\<close> go through
  \<^const>\<open>map_of\<close>, \<^verbatim>\<open>d.items()\<close> is the list itself.
\<close>

record Grid =
  gsize :: GridSize
  cells :: "(Position \<times> Cell) list"

text \<open>
  The exceptions the program raises or lets through: the three \<^verbatim>\<open>ValueError\<close>s of
  the repository (\<^verbatim>\<open>"Position ... out of bounds"\<close> of \<^verbatim>\<open>set_cell\<close>,
  \<^verbatim>\<open>"Density must be between 0 and 1"\<close> and \<^verbatim>\<open>"Grid size must be positive"\<close> of
  \<^verbatim>\<open>GameConfig\<close>), the \<^verbatim>\<open>ValueError\<close> of \<^verbatim>\<open>time.sleep\<close> for a negative
  length, and \<^verbatim>\<open>KeyboardInterrupt\<close>.
\<close>

datatype error =
    OutOfBounds Position
  | DensityOutOfRange
  | GridSizeNotPositive
  | NegativeSleepLength real
  | KeyboardInterrupt

text \<open>
  \<^verbatim>\<open>_initialize_empty\<close>:
  \<^verbatim>\<open>for position in self._size.all_positions(): self._cells[position] = Cell.dead_cell()\<close>
\<close>

definition initialize_empty :: "Grid \<Rightarrow> Grid" where
  "initialize_empty g =
     fold (\<lambda>position g'. g'\<lparr>cells := AList.update position dead_cell (cells g')\<rparr>)
       (all_positions (gsize g)) g"

text \<open>The constructor \<^verbatim>\<open>Grid(size)\<close>.\<close>

definition new_Grid :: "GridSize \<Rightarrow> Grid" where
  "new_Grid s = initialize_empty \<lparr>gsize = s, cells = []\<rparr>"

text \<open>
  \<^verbatim>\<open>set_cell\<close> mutates the grid or raises. The model returns the outcome of the call
  together with the grid as it is after the call.
\<close>

definition set_cell :: "Position \<Rightarrow> Cell \<Rightarrow> Grid \<Rightarrow> (error + unit) \<times> Grid" where
  "set_cell position cell g =
     (if \<not> contains (gsize g) position then (Inl (OutOfBounds position), g)
      else (Inr (), g\<lparr>cells := AList.update position cell (cells g)\<rparr>))"

definition get_cell :: "Grid \<Rightarrow> Position \<Rightarrow> Cell" where
  "get_cell g position =
     (if \<not> contains (gsize g) position then dead_cell
      else (case map_of (cells g) position of None \<Rightarrow> dead_cell | Some c \<Rightarrow> c))"

text \<open>
  \<^verbatim>\<open>sum(1 for neighbor in position.neighbors()
        if self._size.contains(neighbor) and self.get_cell(neighbor).is_alive())\<close>
\<close>

definition count_living_neighbors :: "Grid \<Rightarrow> Position \<Rightarrow> int" where
  "count_living_neighbors g position =
     sum_list [1. neighbor \<leftarrow> neighbors position,
                 contains (gsize g) neighbor \<and> is_alive (get_cell g neighbor)]"

text \<open>
  The code analysis (\<^verbatim>\<open>example-05.ts\<close>, section 2.2) sketches the same class with a
  query \<^verbatim>\<open>is_alive(position)\<close> in place of \<^verbatim>\<open>get_cell\<close>:
  \<^verbatim>\<open>return position in self._cells and self._cells[position].is_alive()\<close>, and
  \<^verbatim>\<open>count_living_neighbors\<close> written with it.
\<close>

definition grid_is_alive :: "Grid \<Rightarrow> Position \<Rightarrow> bool" where
  "grid_is_alive g position =
     (case map_of (cells g) position of None \<Rightarrow> False | Some c \<Rightarrow> is_alive c)"

definition count_living_neighbors_sketch :: "Grid \<Rightarrow> Position \<Rightarrow> int" where
  "count_living_neighbors_sketch g position =
     sum_list [1. neighbor \<leftarrow> neighbors position,
                 contains (gsize g) neighbor \<and> grid_is_alive g neighbor]"

text \<open>\<^verbatim>\<open>{pos for pos, cell in self._cells.items() if cell.is_alive()}\<close>\<close>

definition living_cells :: "Grid \<Rightarrow> Position set" where
  "living_cells g = set [pos. (pos, cell) \<leftarrow> cells g, is_alive cell]"

section \<open>GameEngine\<close>

text \<open>
  The engine's mutable state is its grid and its generation; \<^verbatim>\<open>config\<close>,
  \<^verbatim>\<open>rules\<close> and \<^verbatim>\<open>display\<close> are assigned once in \<^verbatim>\<open>__init__\<close> and only read
  afterwards.
\<close>

record GameEngine =
  grid :: Grid
  generation :: Generation

definition new_GameEngine :: "Grid \<Rightarrow> GameEngine" where
  "new_GameEngine g = \<lparr>grid = g, generation = Generation 0\<rparr>"

text \<open>
  The body of the loop of \<^verbatim>\<open>_calculate_next_generation\<close>, over the positions still to
  visit; an exception of \<^verbatim>\<open>set_cell\<close> leaves the loop.
\<close>

fun fill_next :: "Grid \<Rightarrow> Position list \<Rightarrow> Grid \<Rightarrow> error + Grid" where
  "fill_next old [] new_grid = Inr new_grid"
| "fill_next old (position # rest) new_grid =
     (let current_cell = get_cell old position;
          neighbor_count = count_living_neighbors old position;
          next_cell = calculate_next_state current_cell neighbor_count
      in case set_cell position next_cell new_grid of
           (Inl err, _) \<Rightarrow> Inl err
         | (Inr _, new_grid') \<Rightarrow> fill_next old rest new_grid')"

definition calculate_next_generation :: "GameEngine \<Rightarrow> error + Grid" where
  "calculate_next_generation e =
     fill_next (grid e) (all_positions (gsize (grid e))) (new_Grid (gsize (grid e)))"

text \<open>
  \<^verbatim>\<open>self.grid = self._calculate_next_generation()
     self.generation = self.generation.next()\<close>;
  an exception of the first line leaves both fields as they were.
\<close>

definition step :: "GameEngine \<Rightarrow> (error + unit) \<times> GameEngine" where
  "step e =
     (case calculate_next_generation e of
        Inl err \<Rightarrow> (Inl err, e)
      | Inr g \<Rightarrow>
          (let e1 = e\<lparr>grid := g\<rparr>;
               e2 = e1\<lparr>generation := next_generation (generation e1)\<rparr>
           in (Inr (), e2)))"

text \<open>\<open>n\<close> calls of \<^verbatim>\<open>step()\<close> in a row, stopping at the first exception.\<close>

fun steps :: "nat \<Rightarrow> GameEngine \<Rightarrow> (error + unit) \<times> GameEngine" where
  "steps 0 e = (Inr (), e)"
| "steps (Suc n) e =
     (case step e of
        (Inl err, e') \<Rightarrow> (Inl err, e')
      | (Inr _, e') \<Rightarrow> steps n e')"

text \<open>
  \<^verbatim>\<open>step()\<close> is two assignments, and \<^verbatim>\<open>KeyboardInterrupt\<close> is raised between
  two instructions of the interpreter, wherever the signal arrives. In
  \<open>step_interruptible\<close> the parameter \<open>interrupt\<close> is the number of assignments of
  this call that complete before the exception is raised (\<open>None\<close>, or a number from 2
  on: it is not raised during this call). Raised before the first assignment completes,
  also during \<^verbatim>\<open>_calculate_next_generation\<close>, whose new grid is still a local value, it
  leaves the engine as it was; raised after it, it leaves the new grid with the old
  generation.
\<close>

definition step_interruptible ::
  "nat option \<Rightarrow> GameEngine \<Rightarrow> (error + unit) \<times> GameEngine" where
  "step_interruptible interrupt e =
     (if interrupt = Some 0 then (Inl KeyboardInterrupt, e)
      else
        (case calculate_next_generation e of
           Inl err \<Rightarrow> (Inl err, e)
         | Inr g \<Rightarrow>
             (let e1 = e\<lparr>grid := g\<rparr> in
              if interrupt = Some 1 then (Inl KeyboardInterrupt, e1)
              else
                (let e2 = e1\<lparr>generation := next_generation (generation e1)\<rparr>
                 in (Inr (), e2)))))"

text \<open>
  The cell that the loop body of \<^verbatim>\<open>_calculate_next_generation\<close> writes at a position
  (its three local variables in one expression), for the statements below.
\<close>

definition next_cell :: "Grid \<Rightarrow> Position \<Rightarrow> Cell" where
  "next_cell old position =
     calculate_next_state (get_cell old position) (count_living_neighbors old position)"

section \<open>GameConfig\<close>



section \<open>The run loop\<close>








section \<open>Properties of the rules\<close>

lemmas cell_defs = alive_cell_def dead_cell_def is_alive_def is_dead_def

lemmas rules_defs = calculate_next_state_def apply_survival_rules_def apply_birth_rules_def

text \<open>
  Claim C1. For a cell \<open>c\<close> and a living-neighbour count \<open>n\<close> between 0 and 8,
  \<^verbatim>\<open>calculate_next_state(c, n)\<close> is alive exactly when \<open>c\<close> is alive and \<open>n\<close> is 2 or
  3, or \<open>c\<close> is dead and \<open>n\<close> is 3; in every other case it is the dead cell.
\<close>

theorem calculate_next_state_conway:
  assumes "0 \<le> n" and "n \<le> 8"
  shows "is_alive (calculate_next_state c n) =
           ((is_alive c \<and> (n = 2 \<or> n = 3)) \<or> (is_dead c \<and> n = 3))
         \<and> (\<not> ((is_alive c \<and> (n = 2 \<or> n = 3)) \<or> (is_dead c \<and> n = 3))
              \<longrightarrow> calculate_next_state c n = dead_cell)"
  by (simp add: cell_defs rules_defs)

theorem calculate_next_state_conway_witness:
  "(0::int) \<le> 3 \<and> (3::int) \<le> 8 \<and> (0::int) \<le> 4 \<and> (4::int) \<le> 8
   \<and> is_alive (calculate_next_state dead_cell 3)
   \<and> \<not> ((is_alive alive_cell \<and> ((4::int) = 2 \<or> (4::int) = 3)) \<or> (is_dead alive_cell \<and> (4::int) = 3))
   \<and> calculate_next_state alive_cell 4 = dead_cell"
  using calculate_next_state_conway [of 3 dead_cell]
    calculate_next_state_conway [of 4 alive_cell]
  by (simp add: cell_defs)

text \<open>
  Claim C10. \<^verbatim>\<open>calculate_next_state\<close> is defined for every integer count, not only
  0 to 8: an alive cell with a count other than 2 and 3 becomes dead, a dead cell with a
  count other than 3 stays dead, and the result is always one of the two cells (the
  function has no raising branch).
\<close>

theorem calculate_next_state_total:
  "(is_alive c \<and> n \<noteq> 2 \<and> n \<noteq> 3 \<longrightarrow> calculate_next_state c n = dead_cell)
   \<and> (is_dead c \<and> n \<noteq> 3 \<longrightarrow> calculate_next_state c n = dead_cell)
   \<and> (calculate_next_state c n = alive_cell \<or> calculate_next_state c n = dead_cell)"
  by (simp add: cell_defs rules_defs)

theorem calculate_next_state_total_witness:
  "is_alive alive_cell \<and> (9::int) \<noteq> 2 \<and> (9::int) \<noteq> 3
   \<and> calculate_next_state alive_cell 9 = dead_cell
   \<and> is_dead dead_cell \<and> (- 1::int) \<noteq> 3
   \<and> calculate_next_state dead_cell (- 1) = dead_cell"
  using calculate_next_state_total [of alive_cell 9]
    calculate_next_state_total [of dead_cell "- 1"]
  by (simp add: cell_defs)

section \<open>Properties of positions\<close>

lemma neighbors_list:
  "neighbors p =
     [Position (row p - 1) (col p - 1), Position (row p - 1) (col p),
      Position (row p - 1) (col p + 1),
      Position (row p) (col p - 1), Position (row p) (col p + 1),
      Position (row p + 1) (col p - 1), Position (row p + 1) (col p),
      Position (row p + 1) (col p + 1)]"
  by (simp add: neighbors_def)

lemma neighbor_offsets:
  "({- 1, 0, 1} \<times> {- 1, 0, 1} - {(0, 0)} :: (int \<times> int) set) =
     {(- 1, - 1), (- 1, 0), (- 1, 1), (0, - 1), (0, 1), (1, - 1), (1, 0), (1, 1)}"
  by auto

text \<open>
  Claim C3. \<^verbatim>\<open>Position(row, col).neighbors()\<close> is the list of the 8 positions
  \<open>(row + dr, col + dc)\<close> for the offsets \<open>dr\<close>, \<open>dc\<close> in \<open>{-1, 0, 1}\<close> other than
  \<open>(0, 0)\<close>, each once, in the row-major order of the offsets; it depends on the
  position alone, so nothing is filtered by any bounds.
\<close>

theorem neighbors_eight_offsets:
  "neighbors p =
     [Position (row p - 1) (col p - 1), Position (row p - 1) (col p),
      Position (row p - 1) (col p + 1),
      Position (row p) (col p - 1), Position (row p) (col p + 1),
      Position (row p + 1) (col p - 1), Position (row p + 1) (col p),
      Position (row p + 1) (col p + 1)]
   \<and> length (neighbors p) = 8
   \<and> distinct (neighbors p)
   \<and> set (neighbors p) =
       (\<lambda>(dr, dc). Position (row p + dr) (col p + dc)) `
         ({- 1, 0, 1} \<times> {- 1, 0, 1} - {(0, 0)})"
proof (intro conjI)
  show "set (neighbors p) =
       (\<lambda>(dr, dc). Position (row p + dr) (col p + dc)) `
         ({- 1, 0, 1} \<times> {- 1, 0, 1} - {(0, 0)})"
    unfolding neighbor_offsets by (simp add: neighbors_list)
qed (simp_all add: neighbors_list)

section \<open>Properties of the enumeration of positions\<close>

lemma all_positions_product:
  "all_positions s =
     map (\<lambda>(r, c). Position r c) (List.product (range_py (height s)) (range_py (width s)))"
  by (simp add: all_positions_def product_concat_map map_concat comp_def)

lemma length_range_py: "length (range_py n) = nat n"
  by (simp add: range_py_def)

lemma nth_range_py: "k < nat n \<Longrightarrow> range_py n ! k = int k"
  by (simp add: range_py_def)

lemma set_range_py: "set (range_py n) = {0..<n}"
  by (auto simp add: range_py_def)

lemma length_all_positions: "length (all_positions s) = nat (height s) * nat (width s)"
  by (simp add: all_positions_product length_range_py)

lemma set_all_positions: "set (all_positions s) = {p. contains s p}"
proof -
  have "p \<in> set (all_positions s) \<longleftrightarrow> contains s p" for p
    by (cases p) (auto simp add: all_positions_product set_range_py contains_def image_iff)
  then show ?thesis by blast
qed

lemma distinct_all_positions: "distinct (all_positions s)"
  by (auto simp add: all_positions_product distinct_map distinct_product range_py_def inj_on_def)

lemma nth_all_positions:
  assumes "n < length (all_positions s)"
  shows "all_positions s ! n = Position (int n div width s) (int n mod width s)"
proof -
  from assms have n: "n < nat (height s) * nat (width s)"
    by (simp add: length_all_positions)
  then have w: "0 < nat (width s)" by (cases "nat (width s)") auto
  from n w have d: "n div nat (width s) < nat (height s)"
    by (simp add: less_mult_imp_div_less)
  from w have m: "n mod nat (width s) < nat (width s)" by simp
  have "all_positions s ! n =
      (\<lambda>(r, c). Position r c) (List.product (range_py (height s)) (range_py (width s)) ! n)"
    using n by (simp add: all_positions_product length_range_py)
  also have "\<dots> = Position (int (n div nat (width s))) (int (n mod nat (width s)))"
    using n d m by (simp add: product_nth length_range_py nth_range_py)
  also have "\<dots> = Position (int n div width s) (int n mod width s)"
    using w by (simp add: zdiv_int zmod_int)
  finally show ?thesis .
qed

text \<open>
  Claim C4. For a \<^verbatim>\<open>GridSize\<close> of positive width \<open>w\<close> and height \<open>h\<close>,
  \<^verbatim>\<open>all_positions()\<close> enumerates \<open>w * h\<close> positions, each once, in row-major
  order (the \<open>n\<close>-th one is \<open>(n div w, n mod w)\<close>), every one of them satisfies
  \<^verbatim>\<open>contains\<close>, and every position that satisfies \<^verbatim>\<open>contains\<close> is enumerated.
\<close>

theorem all_positions_row_major:
  assumes "0 < width s" and "0 < height s"
  shows "int (length (all_positions s)) = width s * height s
    \<and> distinct (all_positions s)
    \<and> (\<forall>n < length (all_positions s).
          all_positions s ! n = Position (int n div width s) (int n mod width s))
    \<and> (\<forall>p \<in> set (all_positions s). contains s p)
    \<and> set (all_positions s) = {p. contains s p}"
  using assms
  by (simp add: length_all_positions distinct_all_positions nth_all_positions set_all_positions
      nat_mult_distrib mult.commute)

theorem all_positions_row_major_witness:
  "0 < width (GridSize 3 2) \<and> 0 < height (GridSize 3 2)
   \<and> all_positions (GridSize 3 2) =
       [Position 0 0, Position 0 1, Position 0 2, Position 1 0, Position 1 1, Position 1 2]
   \<and> int (length (all_positions (GridSize 3 2))) = 3 * 2
   \<and> distinct (all_positions (GridSize 3 2))
   \<and> all_positions (GridSize 3 2) ! 4 = Position 1 1
   \<and> contains (GridSize 3 2) (Position 1 1)"
proof -
  have e: "all_positions (GridSize 3 2) =
       [Position 0 0, Position 0 1, Position 0 2, Position 1 0, Position 1 1, Position 1 2]"
    by code_simp
  show ?thesis
    using all_positions_row_major [of "GridSize 3 2"] by (simp add: e contains_def)
qed

section \<open>Properties of the grid\<close>

lemma set_cell_eq:
  "set_cell p c g =
     (if contains (gsize g) p then (Inr (), g\<lparr>cells := AList.update p c (cells g)\<rparr>)
      else (Inl (OutOfBounds p), g))"
  by (simp add: set_cell_def)

text \<open>
  Claim C8. \<^verbatim>\<open>set_cell(p, c)\<close> raises its out-of-bounds error exactly when
  \<^verbatim>\<open>size.contains(p)\<close> is false, and then the grid is as before; otherwise it returns
  normally, the cell stored at \<open>p\<close> is \<open>c\<close>, and the cell at every other position
  (stored, and as read by \<^verbatim>\<open>get_cell\<close>) is unchanged, as is the size.
\<close>

theorem set_cell_out_of_bounds_iff:
  "((\<exists>err. fst (set_cell p c g) = Inl err) = (\<not> contains (gsize g) p))
   \<and> (\<not> contains (gsize g) p \<longrightarrow>
        set_cell p c g = (Inl (OutOfBounds p), g))
   \<and> (contains (gsize g) p \<longrightarrow>
        fst (set_cell p c g) = Inr ()
        \<and> gsize (snd (set_cell p c g)) = gsize g
        \<and> map_of (cells (snd (set_cell p c g))) p = Some c
        \<and> get_cell (snd (set_cell p c g)) p = c
        \<and> (\<forall>q. q \<noteq> p \<longrightarrow>
              map_of (cells (snd (set_cell p c g))) q = map_of (cells g) q
              \<and> get_cell (snd (set_cell p c g)) q = get_cell g q))"
  by (simp add: set_cell_eq get_cell_def update_conv')

theorem set_cell_out_of_bounds_iff_witness:
  "contains (gsize (new_Grid (GridSize 2 2))) (Position 1 0)
   \<and> fst (set_cell (Position 1 0) alive_cell (new_Grid (GridSize 2 2))) = Inr ()
   \<and> get_cell (snd (set_cell (Position 1 0) alive_cell (new_Grid (GridSize 2 2)))) (Position 1 0)
       = alive_cell
   \<and> get_cell (snd (set_cell (Position 1 0) alive_cell (new_Grid (GridSize 2 2)))) (Position 0 0)
       = get_cell (new_Grid (GridSize 2 2)) (Position 0 0)
   \<and> \<not> contains (gsize (new_Grid (GridSize 2 2))) (Position 2 0)
   \<and> set_cell (Position 2 0) alive_cell (new_Grid (GridSize 2 2))
       = (Inl (OutOfBounds (Position 2 0)), new_Grid (GridSize 2 2))"
proof -
  have 1: "contains (gsize (new_Grid (GridSize 2 2))) (Position 1 0)"
    by code_simp
  have 2: "\<not> contains (gsize (new_Grid (GridSize 2 2))) (Position 2 0)"
    by code_simp
  have 3: "Position 0 0 \<noteq> Position 1 0" by simp
  show ?thesis
    using set_cell_out_of_bounds_iff [of "Position 1 0" alive_cell "new_Grid (GridSize 2 2)"]
      set_cell_out_of_bounds_iff [of "Position 2 0" alive_cell "new_Grid (GridSize 2 2)"] 1 2 3
    by blast
qed

section \<open>Properties of neighbour counting\<close>

lemma concat_map_guard:
  "concat (map (\<lambda>x. if P x then [f x] else []) xs) = map f (filter P xs)"
  by (induction xs) simp_all

lemma count_living_neighbors_length:
  "count_living_neighbors g p =
     int (length [n \<leftarrow> neighbors p. contains (gsize g) n \<and> is_alive (get_cell g n)])"
  by (simp add: count_living_neighbors_def concat_map_guard sum_list_triv)

lemma get_cell_alive_iff:
  "contains (gsize g) n \<Longrightarrow> is_alive (get_cell g n) = grid_is_alive g n"
  by (simp add: get_cell_def grid_is_alive_def cell_defs split: option.splits)

lemma count_living_neighbors_sketch_eq:
  "count_living_neighbors_sketch g p = count_living_neighbors g p"
proof -
  have "(\<lambda>n. contains (gsize g) n \<and> grid_is_alive g n) =
        (\<lambda>n. contains (gsize g) n \<and> is_alive (get_cell g n))"
    using get_cell_alive_iff by blast
  then show ?thesis
    by (simp add: count_living_neighbors_sketch_def count_living_neighbors_def concat_map_guard)
qed

lemma count_le_in_bounds:
  "count_living_neighbors g p \<le> int (length (filter (contains (gsize g)) (neighbors p)))"
proof -
  have "length [n \<leftarrow> neighbors p. contains (gsize g) n \<and> is_alive (get_cell g n)]
        = length (filter (\<lambda>n. is_alive (get_cell g n)) (filter (contains (gsize g)) (neighbors p)))"
    by (simp add: conj_commute)
  also have "\<dots> \<le> length (filter (contains (gsize g)) (neighbors p))"
    by (rule length_filter_le)
  finally show ?thesis by (simp add: count_living_neighbors_length)
qed

lemma count_range: "0 \<le> count_living_neighbors g p \<and> count_living_neighbors g p \<le> 8"
proof -
  have "length [n \<leftarrow> neighbors p. contains (gsize g) n \<and> is_alive (get_cell g n)] \<le> length (neighbors p)"
    by (rule length_filter_le)
  then show ?thesis by (simp add: count_living_neighbors_length neighbors_list)
qed

lemma in_bounds_row_border:
  assumes "row p = 0 \<or> row p = height s - 1"
  shows "length (filter (contains s) (neighbors p)) \<le> 5"
  using assms
  by (auto simp add: neighbors_list contains_def)

lemma in_bounds_col_border:
  assumes "col p = 0 \<or> col p = width s - 1"
  shows "length (filter (contains s) (neighbors p)) \<le> 5"
  using assms
  by (auto simp add: neighbors_list contains_def)

lemma in_bounds_corner:
  assumes "row p = 0 \<or> row p = height s - 1" "col p = 0 \<or> col p = width s - 1"
  shows "length (filter (contains s) (neighbors p)) \<le> 3"
  using assms
  by (auto simp add: neighbors_list contains_def)

text \<open>
  Claim C2. \<^verbatim>\<open>count_living_neighbors(p)\<close> is between 0 and 8. Neighbours out of bounds
  never contribute: the count is the same when they are removed from the list first, it is
  at most the number of neighbours in bounds, and it does not change when a cell is stored
  under a key out of bounds. Hence a corner position counts at most 3, a position on an
  edge at most 5 and any position at most 8. The variant of the code analysis, written
  with \<^verbatim>\<open>is_alive(position)\<close>, returns the same count.
\<close>

theorem count_living_neighbors_bounds:
  "0 \<le> count_living_neighbors g p \<and> count_living_neighbors g p \<le> 8
   \<and> count_living_neighbors g p =
       sum_list [1. neighbor \<leftarrow> filter (contains (gsize g)) (neighbors p),
                   is_alive (get_cell g neighbor)]
   \<and> count_living_neighbors g p \<le> int (length (filter (contains (gsize g)) (neighbors p)))
   \<and> (\<not> contains (gsize g) q \<longrightarrow>
        count_living_neighbors (g\<lparr>cells := AList.update q c (cells g)\<rparr>) p =
        count_living_neighbors g p)
   \<and> ((row p = 0 \<or> row p = height (gsize g) - 1) \<and> (col p = 0 \<or> col p = width (gsize g) - 1)
        \<longrightarrow> count_living_neighbors g p \<le> 3)
   \<and> (row p = 0 \<or> row p = height (gsize g) - 1 \<or> col p = 0 \<or> col p = width (gsize g) - 1
        \<longrightarrow> count_living_neighbors g p \<le> 5)
   \<and> count_living_neighbors_sketch g p = count_living_neighbors g p"
proof -
  have a: "count_living_neighbors g p =
       sum_list [1. neighbor \<leftarrow> filter (contains (gsize g)) (neighbors p),
                   is_alive (get_cell g neighbor)]"
    by (simp add: count_living_neighbors_def concat_map_guard conj_commute)
  have b: "count_living_neighbors (g\<lparr>cells := AList.update q c (cells g)\<rparr>) p =
        count_living_neighbors g p" if "\<not> contains (gsize g) q"
  proof -
    have "(contains (gsize g) n \<and> is_alive (get_cell (g\<lparr>cells := AList.update q c (cells g)\<rparr>) n))
        = (contains (gsize g) n \<and> is_alive (get_cell g n))" for n
      using that by (auto simp add: get_cell_def update_conv')
    then show ?thesis
      by (simp add: count_living_neighbors_length)
  qed
  have c3: "count_living_neighbors g p \<le> 3"
    if "row p = 0 \<or> row p = height (gsize g) - 1" "col p = 0 \<or> col p = width (gsize g) - 1"
    using count_le_in_bounds [of g p] in_bounds_corner [OF that] by simp
  have c5: "count_living_neighbors g p \<le> 5"
    if "row p = 0 \<or> row p = height (gsize g) - 1 \<or> col p = 0 \<or> col p = width (gsize g) - 1"
    using count_le_in_bounds [of g p] in_bounds_row_border [of p "gsize g"]
      in_bounds_col_border [of p "gsize g"] that by auto
  show ?thesis
    using a b c3 c5 count_range [of g p] count_le_in_bounds [of g p]
      count_living_neighbors_sketch_eq [of g p]
    by blast
qed

theorem count_living_neighbors_bounds_witness:
  "count_living_neighbors
     \<lparr>gsize = GridSize 3 3, cells = map (\<lambda>p. (p, alive_cell)) (all_positions (GridSize 3 3))\<rparr>
     (Position 0 0) = 3
   \<and> count_living_neighbors
     \<lparr>gsize = GridSize 3 3, cells = map (\<lambda>p. (p, alive_cell)) (all_positions (GridSize 3 3))\<rparr>
     (Position 0 1) = 5
   \<and> count_living_neighbors
     \<lparr>gsize = GridSize 3 3, cells = map (\<lambda>p. (p, alive_cell)) (all_positions (GridSize 3 3))\<rparr>
     (Position 1 1) = 8
   \<and> \<not> contains (GridSize 3 3) (Position (- 1) 0)
   \<and> count_living_neighbors
     \<lparr>gsize = GridSize 3 3,
        cells = AList.update (Position (- 1) 0) alive_cell
          (map (\<lambda>p. (p, alive_cell)) (all_positions (GridSize 3 3)))\<rparr>
     (Position 0 0) = 3"
proof -
  let ?g = "\<lparr>gsize = GridSize 3 3,
              cells = map (\<lambda>p. (p, alive_cell)) (all_positions (GridSize 3 3))\<rparr>"
  have 1: "count_living_neighbors ?g (Position 0 0) = 3" by code_simp
  have 2: "count_living_neighbors ?g (Position 0 1) = 5" by code_simp
  have 3: "count_living_neighbors ?g (Position 1 1) = 8" by code_simp
  have 4: "\<not> contains (gsize ?g) (Position (- 1) 0)" by (simp add: contains_def)
  show ?thesis
    using count_living_neighbors_bounds [of ?g "Position 0 0" "Position (- 1) 0" alive_cell] 1 2 3 4
    by simp
qed

section \<open>The next generation in closed form\<close>

lemma fold_update_fresh:
  "distinct ps \<Longrightarrow> set ps \<inter> fst ` set al = {} \<Longrightarrow>
   fold (\<lambda>p al'. AList.update p v al') ps al = al @ map (\<lambda>p. (p, v)) ps"
proof (induction ps arbitrary: al)
  case Nil
  then show ?case by simp
next
  case (Cons p ps)
  have "AList.update p v al = al @ [(p, v)]"
    using Cons.prems(2) by (induction al) auto
  with Cons show ?case by auto
qed

lemma cells_fold_record:
  "cells (fold (\<lambda>p g'. g'\<lparr>cells := F p (cells g')\<rparr>) ps g) = fold F ps (cells g)"
  "gsize (fold (\<lambda>p g'. g'\<lparr>cells := F p (cells g')\<rparr>) ps g) = gsize g"
  by (induction ps arbitrary: g) simp_all

lemma new_Grid_eq:
  "new_Grid s = \<lparr>gsize = s, cells = map (\<lambda>p. (p, dead_cell)) (all_positions s)\<rparr>"
proof -
  have "fold (\<lambda>p al'. AList.update p dead_cell al') (all_positions s) [] =
        [] @ map (\<lambda>p. (p, dead_cell)) (all_positions s)"
    by (rule fold_update_fresh) (simp_all add: distinct_all_positions)
  then show ?thesis
    unfolding new_Grid_def initialize_empty_def
    by (intro Grid.equality)
      (simp_all add: cells_fold_record [where F = "\<lambda>p. AList.update p dead_cell"])
qed


lemma update_present:
  "k \<in> fst ` set al \<Longrightarrow> distinct (map fst al) \<Longrightarrow>
   AList.update k v al = map (\<lambda>(k', v'). (k', if k' = k then v else v')) al"
  by (induction al) (auto simp add: rev_image_eqI intro!: map_idI [symmetric])

lemma fill_next_eq:
  assumes "set ps \<subseteq> fst ` set (cells new_grid)" "distinct (map fst (cells new_grid))"
    and "\<forall>p \<in> set ps. contains (gsize new_grid) p"
  shows "fill_next old ps new_grid =
     Inr (new_grid\<lparr>cells :=
        map (\<lambda>(k, v). (k, if k \<in> set ps then next_cell old k else v)) (cells new_grid)\<rparr>)"
  using assms
proof (induction ps arbitrary: new_grid)
  case Nil
  then show ?case by simp
next
  case (Cons p ps)
  let ?g = "new_grid\<lparr>cells := AList.update p (next_cell old p) (cells new_grid)\<rparr>"
  have u: "AList.update p (next_cell old p) (cells new_grid) =
      map (\<lambda>(k', v'). (k', if k' = p then next_cell old p else v')) (cells new_grid)"
    using Cons.prems by (simp add: update_present)
  have "fill_next old (p # ps) new_grid = fill_next old ps ?g"
    using Cons.prems by (simp add: set_cell_eq next_cell_def)
  also have "\<dots> = Inr (?g\<lparr>cells :=
        map (\<lambda>(k, v). (k, if k \<in> set ps then next_cell old k else v)) (cells ?g)\<rparr>)"
    using Cons.prems by (intro Cons.IH) (auto simp add: dom_update distinct_update)
  also have "\<dots> = Inr (new_grid\<lparr>cells :=
        map (\<lambda>(k, v). (k, if k \<in> set (p # ps) then next_cell old k else v)) (cells new_grid)\<rparr>)"
    by (simp add: u case_prod_beta)
  finally show ?case .
qed


lemma calculate_next_generation_eq:
  "calculate_next_generation e =
     Inr \<lparr>gsize = gsize (grid e),
          cells = map (\<lambda>p. (p, next_cell (grid e) p)) (all_positions (gsize (grid e)))\<rparr>"
proof -
  let ?s = "gsize (grid e)"
  have "fill_next (grid e) (all_positions ?s) (new_Grid ?s) =
     Inr ((new_Grid ?s)\<lparr>cells :=
        map (\<lambda>(k, v). (k, if k \<in> set (all_positions ?s) then next_cell (grid e) k else v))
          (cells (new_Grid ?s))\<rparr>)"
    by (rule fill_next_eq)
      (simp_all add: new_Grid_eq comp_def distinct_all_positions set_all_positions image_image)
  then show ?thesis
    by (simp add: calculate_next_generation_def new_Grid_eq comp_def)
qed

lemma step_eq:
  "step e =
     (Inr (),
      \<lparr>grid = \<lparr>gsize = gsize (grid e),
                cells = map (\<lambda>p. (p, next_cell (grid e) p)) (all_positions (gsize (grid e)))\<rparr>,
       generation = Generation (number (generation e) + 1)\<rparr>)"
  by (simp add: step_def calculate_next_generation_eq next_generation_def)

lemma get_cell_tabulated:
  "get_cell \<lparr>gsize = s, cells = map (\<lambda>p. (p, f p)) (all_positions s)\<rparr> q =
     (if contains s q then f q else dead_cell)"
  by (simp add: get_cell_def map_of_map_restrict set_all_positions)

lemma living_cells_iff:
  "p \<in> living_cells g \<longleftrightarrow> (\<exists>c. (p, c) \<in> set (cells g) \<and> is_alive c)"
  by (auto simp add: living_cells_def split: if_splits)

lemma living_cells_tabulated:
  "living_cells \<lparr>gsize = s, cells = map (\<lambda>p. (p, f p)) (all_positions s)\<rparr> =
     {p. contains s p \<and> is_alive (f p)}"
  by (auto simp add: living_cells_iff set_all_positions image_iff)

lemma get_cell_step:
  "get_cell (grid (snd (step e))) q =
     (if contains (gsize (grid e)) q then next_cell (grid e) q else dead_cell)"
  by (simp add: step_eq get_cell_tabulated)

lemma living_cells_step:
  "living_cells (grid (snd (step e))) =
     {p. contains (gsize (grid e)) p \<and> is_alive (next_cell (grid e) p)}"
  by (simp add: step_eq living_cells_tabulated)

lemma gsize_step: "gsize (grid (snd (step e))) = gsize (grid e)"
  by (simp add: step_eq)

lemma fst_step: "fst (step e) = Inr ()"
  by (simp add: step_eq)

lemma generation_step: "generation (snd (step e)) = Generation (number (generation e) + 1)"
  by (simp add: step_eq)

lemma steps_Suc: "steps (Suc n) e = steps n (snd (step e))"
  by (simp add: step_eq)

lemma fst_steps: "fst (steps n e) = Inr ()"
  by (induction n arbitrary: e) (simp_all add: steps_Suc del: steps.simps(2))

lemma generation_steps:
  "number (generation (snd (steps n e))) = number (generation e) + int n"
  by (induction n arbitrary: e) (simp_all add: steps_Suc generation_step del: steps.simps(2))

section \<open>Empty-grid stasis\<close>

lemma dead_get_cell:
  assumes "living_cells g = {}"
  shows "get_cell g q = dead_cell"
proof (cases "contains (gsize g) q \<and> map_of (cells g) q \<noteq> None")
  case True
  then obtain c where c: "map_of (cells g) q = Some c" by auto
  then have "(q, c) \<in> set (cells g)" by (rule map_of_SomeD)
  with assms have "\<not> is_alive c" using living_cells_iff by blast
  then have "c = dead_cell" by (cases c) (simp add: cell_defs)
  with True c show ?thesis by (simp add: get_cell_def)
next
  case False
  then show ?thesis by (auto simp add: get_cell_def)
qed

lemma dead_count:
  assumes "living_cells g = {}"
  shows "count_living_neighbors g p = 0"
  by (simp add: count_living_neighbors_length dead_get_cell [OF assms] cell_defs)

lemma dead_next_cell:
  assumes "living_cells g = {}"
  shows "next_cell g p = dead_cell"
  by (simp add: next_cell_def dead_count [OF assms] dead_get_cell [OF assms] rules_defs cell_defs)

lemma dead_step:
  assumes "living_cells (grid e) = {}"
  shows "grid (snd (step e)) = new_Grid (gsize (grid e))"
  by (simp add: step_eq dead_next_cell [OF assms] new_Grid_eq)

lemma living_cells_new_Grid: "living_cells (new_Grid s) = {}"
  by (simp add: new_Grid_eq living_cells_tabulated cell_defs)

lemma dead_steps:
  assumes "living_cells (grid e) = {}"
  shows "living_cells (grid (snd (steps n e))) = {}"
  using assms
proof (induction n arbitrary: e)
  case 0
  then show ?case by simp
next
  case (Suc n)
  have "living_cells (grid (snd (step e))) = {}"
    by (simp add: dead_step [OF Suc.prems] living_cells_new_Grid)
  then show ?case
    unfolding steps_Suc by (rule Suc.IH)
qed

text \<open>
  Claim C7. When no cell of the grid is alive, \<^verbatim>\<open>step()\<close> produces the empty grid of
  the same size, in which no cell is alive; hence after any number \<open>n\<close> of steps no cell
  is alive.
\<close>

theorem all_dead_stays_dead:
  assumes "living_cells (grid e) = {}"
  shows "fst (step e) = Inr ()
    \<and> grid (snd (step e)) = new_Grid (gsize (grid e))
    \<and> living_cells (grid (snd (step e))) = {}
    \<and> (\<forall>p. is_dead (get_cell (grid (snd (step e))) p))
    \<and> fst (steps n e) = Inr ()
    \<and> living_cells (grid (snd (steps n e))) = {}
    \<and> (\<forall>p. is_dead (get_cell (grid (snd (steps n e))) p))"
proof -
  have 1: "living_cells (grid (snd (step e))) = {}"
    by (simp add: dead_step [OF assms] living_cells_new_Grid)
  have 2: "living_cells (grid (snd (steps n e))) = {}"
    by (rule dead_steps [OF assms])
  have 3: "is_dead (get_cell (grid (snd (step e))) p)" for p
    by (simp add: dead_get_cell [OF 1] cell_defs)
  have 4: "is_dead (get_cell (grid (snd (steps n e))) p)" for p
    by (simp add: dead_get_cell [OF 2] cell_defs)
  show ?thesis
    using 1 2 3 4 by (simp add: fst_step fst_steps dead_step [OF assms])
qed

theorem all_dead_stays_dead_witness:
  "living_cells (grid (new_GameEngine (new_Grid (GridSize 3 3)))) = {}
   \<and> fst (steps 4 (new_GameEngine (new_Grid (GridSize 3 3)))) = Inr ()
   \<and> living_cells (grid (snd (steps 4 (new_GameEngine (new_Grid (GridSize 3 3)))))) = {}
   \<and> grid (snd (step (new_GameEngine (new_Grid (GridSize 3 3))))) = new_Grid (GridSize 3 3)"
proof -
  have 1: "living_cells (grid (new_GameEngine (new_Grid (GridSize 3 3)))) = {}"
    by code_simp
  have 2: "gsize (grid (new_GameEngine (new_Grid (GridSize 3 3)))) = GridSize 3 3"
    by (simp add: new_GameEngine_def new_Grid_eq)
  show ?thesis
    using all_dead_stays_dead [OF 1, of 4] 1 2 by simp
qed

section \<open>The blinker\<close>

lemma alive_in_bounds: "is_alive (get_cell g n) \<Longrightarrow> contains (gsize g) n"
  by (auto simp add: get_cell_def cell_defs split: if_splits)

lemma count_living_neighbors_get_cell:
  "count_living_neighbors g p =
     int (length (filter (\<lambda>n. is_alive (get_cell g n)) (neighbors p)))"
proof -
  have "(\<lambda>n. contains (gsize g) n \<and> is_alive (get_cell g n)) = (\<lambda>n. is_alive (get_cell g n))"
    using alive_in_bounds by blast
  then show ?thesis by (simp add: count_living_neighbors_length)
qed

lemma is_alive_next_cell:
  "is_alive (next_cell g p) =
     (if is_alive (get_cell g p)
      then count_living_neighbors g p = 2 \<or> count_living_neighbors g p = 3
      else count_living_neighbors g p = 3)"
  by (simp add: next_cell_def rules_defs cell_defs)

lemma horizontal_to_vertical:
  assumes A: "\<And>q. is_alive (get_cell g q) =
                (q \<in> {Position r (c - 1), Position r c, Position r (c + 1)})"
  shows "is_alive (next_cell g p) =
           (p \<in> {Position (r - 1) c, Position r c, Position (r + 1) c})"
proof (cases p)
  case (Position a b)
  consider "a < r - 1" | "a = r - 1" | "a = r" | "a = r + 1" | "r + 1 < a"
    by linarith
  then show ?thesis
  proof cases
    case 1
    then show ?thesis
      by (simp add: Position is_alive_next_cell count_living_neighbors_get_cell neighbors_list A)
  next
    case 2
    consider "b < c - 2" | "b = c - 2" | "b = c - 1" | "b = c" | "b = c + 1" | "b = c + 2" | "c + 2 < b"
      by linarith
    then show ?thesis
      by cases (simp_all add: 2 Position is_alive_next_cell count_living_neighbors_get_cell neighbors_list A)
  next
    case 3
    consider "b < c - 2" | "b = c - 2" | "b = c - 1" | "b = c" | "b = c + 1" | "b = c + 2" | "c + 2 < b"
      by linarith
    then show ?thesis
      by cases (simp_all add: 3 Position is_alive_next_cell count_living_neighbors_get_cell neighbors_list A)
  next
    case 4
    consider "b < c - 2" | "b = c - 2" | "b = c - 1" | "b = c" | "b = c + 1" | "b = c + 2" | "c + 2 < b"
      by linarith
    then show ?thesis
      by cases (simp_all add: 4 Position is_alive_next_cell count_living_neighbors_get_cell neighbors_list A)
  next
    case 5
    then show ?thesis
      by (simp add: Position is_alive_next_cell count_living_neighbors_get_cell neighbors_list A)
  qed
qed

lemma vertical_to_horizontal:
  assumes A: "\<And>q. is_alive (get_cell g q) =
                (q \<in> {Position (r - 1) c, Position r c, Position (r + 1) c})"
  shows "is_alive (next_cell g p) =
           (p \<in> {Position r (c - 1), Position r c, Position r (c + 1)})"
proof (cases p)
  case (Position a b)
  consider "b < c - 1" | "b = c - 1" | "b = c" | "b = c + 1" | "c + 1 < b"
    by linarith
  then show ?thesis
  proof cases
    case 1
    then show ?thesis
      by (simp add: Position is_alive_next_cell count_living_neighbors_get_cell neighbors_list A)
  next
    case 2
    consider "a < r - 2" | "a = r - 2" | "a = r - 1" | "a = r" | "a = r + 1" | "a = r + 2" | "r + 2 < a"
      by linarith
    then show ?thesis
      by cases (simp_all add: 2 Position is_alive_next_cell count_living_neighbors_get_cell neighbors_list A)
  next
    case 3
    consider "a < r - 2" | "a = r - 2" | "a = r - 1" | "a = r" | "a = r + 1" | "a = r + 2" | "r + 2 < a"
      by linarith
    then show ?thesis
      by cases (simp_all add: 3 Position is_alive_next_cell count_living_neighbors_get_cell neighbors_list A)
  next
    case 4
    consider "a < r - 2" | "a = r - 2" | "a = r - 1" | "a = r" | "a = r + 1" | "a = r + 2" | "r + 2 < a"
      by linarith
    then show ?thesis
      by cases (simp_all add: 4 Position is_alive_next_cell count_living_neighbors_get_cell neighbors_list A)
  next
    case 5
    then show ?thesis
      by (simp add: Position is_alive_next_cell count_living_neighbors_get_cell neighbors_list A)
  qed
qed

lemma is_alive_dead_cell: "is_alive dead_cell = False"
  by (simp add: cell_defs)

lemma alive_iff_living:
  assumes "distinct (map fst (cells g))"
  shows "is_alive (get_cell g q) = (contains (gsize g) q \<and> q \<in> living_cells g)"
proof (cases "contains (gsize g) q")
  case True
  have "is_alive (get_cell g q) = (\<exists>c. map_of (cells g) q = Some c \<and> is_alive c)"
    using True by (auto simp add: get_cell_def cell_defs split: option.splits)
  also have "\<dots> = (q \<in> living_cells g)"
    using assms by (simp add: living_cells_iff)
  finally show ?thesis using True by simp
next
  case False
  then show ?thesis by (simp add: get_cell_def cell_defs)
qed

text \<open>
  Claim C6. In a grid whose living cells are exactly a horizontal line of three,
  \<open>(r, c - 1)\<close>, \<open>(r, c)\<close>, \<open>(r, c + 1)\<close>, with at least one row and one column
  between the line and every edge, one \<^verbatim>\<open>step()\<close> leaves exactly the vertical line
  \<open>(r - 1, c)\<close>, \<open>(r, c)\<close>, \<open>(r + 1, c)\<close> alive, and a second \<^verbatim>\<open>step()\<close> gives
  back the horizontal line: every cell reads as in the original grid. (The dictionary of
  the grid holds each key once, as a Python \<^verbatim>\<open>dict\<close> does.)
\<close>

theorem blinker_period_two:
  assumes keys: "distinct (map fst (cells (grid e)))"
    and line: "living_cells (grid e) = {Position r (c - 1), Position r c, Position r (c + 1)}"
    and rows: "1 \<le> r" "r + 1 < height (gsize (grid e))"
    and cols: "1 \<le> c" "c + 1 < width (gsize (grid e))"
  shows "fst (step e) = Inr ()
    \<and> living_cells (grid (snd (step e))) = {Position (r - 1) c, Position r c, Position (r + 1) c}
    \<and> fst (step (snd (step e))) = Inr ()
    \<and> living_cells (grid (snd (step (snd (step e))))) =
        {Position r (c - 1), Position r c, Position r (c + 1)}
    \<and> (\<forall>q. get_cell (grid (snd (step (snd (step e))))) q = get_cell (grid e) q)"
proof -
  let ?s = "gsize (grid e)"
  let ?H = "{Position r (c - 1), Position r c, Position r (c + 1)}"
  let ?V = "{Position (r - 1) c, Position r c, Position (r + 1) c}"
  let ?e1 = "snd (step e)"
  let ?e2 = "snd (step ?e1)"
  have H_in: "contains ?s q" if "q \<in> ?H" for q
    using that rows cols by (auto simp add: contains_def)
  have V_in: "contains ?s q" if "q \<in> ?V" for q
    using that rows cols by (auto simp add: contains_def)
  have A0: "is_alive (get_cell (grid e) q) = (q \<in> ?H)" for q
    using H_in [of q] by (auto simp add: alive_iff_living [OF keys] line)
  have N0: "is_alive (next_cell (grid e) q) = (q \<in> ?V)" for q
    by (rule horizontal_to_vertical) (rule A0)
  have A1: "is_alive (get_cell (grid ?e1) q) = (q \<in> ?V)" for q
    using V_in [of q] by (auto simp add: get_cell_step N0 is_alive_dead_cell)
  have L1: "living_cells (grid ?e1) = ?V"
    using V_in by (auto simp add: living_cells_step N0)
  have N1: "is_alive (next_cell (grid ?e1) q) = (q \<in> ?H)" for q
    by (rule vertical_to_horizontal) (rule A1)
  have A2: "is_alive (get_cell (grid ?e2) q) = (q \<in> ?H)" for q
    using H_in [of q] by (auto simp add: get_cell_step gsize_step N1 is_alive_dead_cell)
  have L2: "living_cells (grid ?e2) = ?H"
    using H_in by (auto simp add: living_cells_step gsize_step N1)
  have same: "get_cell (grid ?e2) q = get_cell (grid e) q" for q
  proof -
    have "is_alive (get_cell (grid ?e2) q) = is_alive (get_cell (grid e) q)"
      by (simp only: A0 A2)
    then show ?thesis
      by (cases "get_cell (grid ?e2) q"; cases "get_cell (grid e) q") (simp add: cell_defs)
  qed
  show ?thesis
    using L1 L2 same by (simp add: fst_step)
qed

theorem blinker_period_two_witness:
  "distinct (map fst (cells (grid (new_GameEngine
       (snd (set_cell (Position 2 3) alive_cell
         (snd (set_cell (Position 2 2) alive_cell
           (snd (set_cell (Position 2 1) alive_cell (new_Grid (GridSize 5 5))))))))))))
   \<and> living_cells (grid (new_GameEngine
       (snd (set_cell (Position 2 3) alive_cell
         (snd (set_cell (Position 2 2) alive_cell
           (snd (set_cell (Position 2 1) alive_cell (new_Grid (GridSize 5 5)))))))))) =
       {Position 2 1, Position 2 2, Position 2 3}
   \<and> living_cells (grid (snd (step (new_GameEngine
       (snd (set_cell (Position 2 3) alive_cell
         (snd (set_cell (Position 2 2) alive_cell
           (snd (set_cell (Position 2 1) alive_cell (new_Grid (GridSize 5 5))))))))))))  =
       {Position 1 2, Position 2 2, Position 3 2}
   \<and> living_cells (grid (snd (step (snd (step (new_GameEngine
       (snd (set_cell (Position 2 3) alive_cell
         (snd (set_cell (Position 2 2) alive_cell
           (snd (set_cell (Position 2 1) alive_cell (new_Grid (GridSize 5 5))))))))))))))  =
       {Position 2 1, Position 2 2, Position 2 3}"
proof -
  let ?e = "new_GameEngine
       (snd (set_cell (Position 2 3) alive_cell
         (snd (set_cell (Position 2 2) alive_cell
           (snd (set_cell (Position 2 1) alive_cell (new_Grid (GridSize 5 5))))))))"
  have 1: "distinct (map fst (cells (grid ?e)))" by code_simp
  have 2: "living_cells (grid ?e) = {Position 2 (2 - 1), Position 2 2, Position 2 (2 + 1)}"
    by code_simp
  have 3: "(1::int) \<le> 2" "2 + 1 < height (gsize (grid ?e))" "2 + 1 < width (gsize (grid ?e))"
    by code_simp+
  show ?thesis
    using blinker_period_two [OF 1 2 3(1) 3(2) 3(1) 3(3)] 1 2 by simp
qed

section \<open>Properties of a step\<close>


lemma step_interruptible_None: "step_interruptible None e = step e"
  by (simp add: step_interruptible_def step_def calculate_next_generation_eq)

lemma step_interruptible_late: "step_interruptible (Some (Suc (Suc k))) e = step e"
  by (simp add: step_interruptible_def step_def calculate_next_generation_eq)

lemma step_interruptible_0: "step_interruptible (Some 0) e = (Inl KeyboardInterrupt, e)"
  by (simp add: step_interruptible_def)

lemma step_interruptible_1:
  "step_interruptible (Some (Suc 0)) e = (Inl KeyboardInterrupt, e\<lparr>grid := grid (snd (step e))\<rparr>)"
  by (simp add: step_interruptible_def step_def calculate_next_generation_eq)

text \<open>
  Claim C5 says that \<^verbatim>\<open>step()\<close> replaces grid and generation as one atomic
  transition, with no partial update observable. That fails: on the horizontal blinker of
  a 3 by 3 grid at generation 0, an interrupt raised between the two assignments leaves the
  engine with the vertical blinker, the grid of generation 1, and with generation 0.
\<close>

theorem step_partial_update_counterexample:
  "generation (snd (step_interruptible (Some 1)
       \<lparr>grid = \<lparr>gsize = GridSize 3 3,
                cells = map (\<lambda>p. (p, Cell (row p = 1))) (all_positions (GridSize 3 3))\<rparr>,
        generation = Generation 0\<rparr>)) = Generation 0
   \<and> grid (snd (step_interruptible (Some 1)
       \<lparr>grid = \<lparr>gsize = GridSize 3 3,
                cells = map (\<lambda>p. (p, Cell (row p = 1))) (all_positions (GridSize 3 3))\<rparr>,
        generation = Generation 0\<rparr>)) =
       \<lparr>gsize = GridSize 3 3,
        cells = map (\<lambda>p. (p, Cell (col p = 1))) (all_positions (GridSize 3 3))\<rparr>
   \<and> living_cells (grid (snd (step_interruptible (Some 1)
       \<lparr>grid = \<lparr>gsize = GridSize 3 3,
                cells = map (\<lambda>p. (p, Cell (row p = 1))) (all_positions (GridSize 3 3))\<rparr>,
        generation = Generation 0\<rparr>))) = {Position 0 1, Position 1 1, Position 2 1}
   \<and> living_cells \<lparr>gsize = GridSize 3 3,
                cells = map (\<lambda>p. (p, Cell (row p = 1))) (all_positions (GridSize 3 3))\<rparr>
       = {Position 1 0, Position 1 1, Position 1 2}
   \<and> generation (snd (step
       \<lparr>grid = \<lparr>gsize = GridSize 3 3,
                cells = map (\<lambda>p. (p, Cell (row p = 1))) (all_positions (GridSize 3 3))\<rparr>,
        generation = Generation 0\<rparr>)) = Generation 1"
  by (intro conjI; code_simp)

text \<open>
  Claim C5, as amended. A call of \<^verbatim>\<open>step()\<close> that is not interrupted never raises. It
  replaces the grid with the newly computed grid, of the same size, in which the cell at
  every position of the grid is \<^verbatim>\<open>calculate_next_state\<close> of the old cell and of its old
  count of living neighbours, and then the generation with \<^verbatim>\<open>generation.next()\<close>: the
  new number is the old one plus one. A new engine starts at generation 0, and after \<open>n\<close>
  steps the number has grown by exactly \<open>n\<close>. The two replacements are two assignments:
  an interrupt raised before the first completes leaves the engine unchanged, and one
  raised between them leaves the new grid with the old generation.
\<close>

theorem step_replaces_grid_then_generation:
  "step e =
     (Inr (),
      \<lparr>grid = \<lparr>gsize = gsize (grid e),
                cells = map (\<lambda>p. (p, calculate_next_state (get_cell (grid e) p)
                                       (count_living_neighbors (grid e) p)))
                          (all_positions (gsize (grid e)))\<rparr>,
       generation = Generation (number (generation e) + 1)\<rparr>)
   \<and> calculate_next_generation e = Inr (grid (snd (step e)))
   \<and> generation (snd (step e)) = next_generation (generation e)
   \<and> number (generation (snd (step e))) = number (generation e) + 1
   \<and> number (generation (new_GameEngine g)) = 0
   \<and> fst (steps n e) = Inr ()
   \<and> number (generation (snd (steps n e))) = number (generation e) + int n
   \<and> number (generation (snd (steps n (new_GameEngine g)))) = int n
   \<and> step_interruptible None e = step e
   \<and> step_interruptible (Some (Suc (Suc k))) e = step e
   \<and> step_interruptible (Some 0) e = (Inl KeyboardInterrupt, e)
   \<and> step_interruptible (Some 1) e =
       (Inl KeyboardInterrupt, e\<lparr>grid := grid (snd (step e))\<rparr>)"
proof (intro conjI)
  show "step e =
     (Inr (),
      \<lparr>grid = \<lparr>gsize = gsize (grid e),
                cells = map (\<lambda>p. (p, calculate_next_state (get_cell (grid e) p)
                                       (count_living_neighbors (grid e) p)))
                          (all_positions (gsize (grid e)))\<rparr>,
       generation = Generation (number (generation e) + 1)\<rparr>)"
    by (simp add: step_eq next_cell_def)
  show "calculate_next_generation e = Inr (grid (snd (step e)))"
    by (simp add: step_eq calculate_next_generation_eq)
  show "generation (snd (step e)) = next_generation (generation e)"
    by (simp add: step_eq next_generation_def)
  show "number (generation (snd (step e))) = number (generation e) + 1"
    by (simp add: generation_step)
  show "number (generation (new_GameEngine g)) = 0"
    by (simp add: new_GameEngine_def)
  show "fst (steps n e) = Inr ()"
    by (rule fst_steps)
  show "number (generation (snd (steps n e))) = number (generation e) + int n"
    by (rule generation_steps)
  show "number (generation (snd (steps n (new_GameEngine g)))) = int n"
    by (simp add: generation_steps new_GameEngine_def)
  show "step_interruptible None e = step e"
    by (rule step_interruptible_None)
  show "step_interruptible (Some (Suc (Suc k))) e = step e"
    by (rule step_interruptible_late)
  show "step_interruptible (Some 0) e = (Inl KeyboardInterrupt, e)"
    by (rule step_interruptible_0)
  show "step_interruptible (Some 1) e =
       (Inl KeyboardInterrupt, e\<lparr>grid := grid (snd (step e))\<rparr>)"
    using step_interruptible_1 [of e] by simp
qed

theorem step_replaces_grid_then_generation_witness:
  "step \<lparr>grid = \<lparr>gsize = GridSize 3 3,
                  cells = map (\<lambda>p. (p, Cell (row p = 1))) (all_positions (GridSize 3 3))\<rparr>,
         generation = Generation 4\<rparr> =
     (Inr (),
      \<lparr>grid = \<lparr>gsize = GridSize 3 3,
                cells = map (\<lambda>p. (p, Cell (col p = 1))) (all_positions (GridSize 3 3))\<rparr>,
       generation = Generation 5\<rparr>)"
proof -
  let ?g = "\<lparr>gsize = GridSize 3 3,
             cells = map (\<lambda>p. (p, Cell (row p = 1))) (all_positions (GridSize 3 3))\<rparr>"
  have 1: "map (\<lambda>p. (p, calculate_next_state (get_cell ?g p) (count_living_neighbors ?g p)))
             (all_positions (GridSize 3 3))
        = map (\<lambda>p. (p, Cell (col p = 1))) (all_positions (GridSize 3 3))"
    by code_simp
  show ?thesis
    using step_replaces_grid_then_generation
      [where e = "\<lparr>grid = ?g, generation = Generation 4\<rparr>" and g = ?g and n = 0 and k = 0]
    by (simp add: 1)
qed

section \<open>Properties of the run loop\<close>







end
